theory Spec2Isabelle
  imports Complex_Main
begin

section \<open>Values\<close>

text \<open>
  The agent of the analytics dashboard is a Python program; its state is the typed
  dictionary \<^verbatim>\<open>AgentState\<close>. Python floats are modelled as real numbers. A
  score is 0.5 plus some of 0.2, 0.1 and 0.2, and it is compared with 0.5, 0.7 and 1.0:
  in double precision each of the eight sums falls on the same side of each threshold
  as the real sum does (two of them differ from the real sum in the last place).
  Strings are lists of characters, and the length of a string is the number of its
  characters.

  A value of type \<^verbatim>\<open>Any\<close> is one of the shapes the analysis dictionary
  holds: a flag, a count, a number, a text, a list of texts or a nested dictionary.
\<close>

datatype pyval =
    PBool bool
  | PInt int
  | PFloat real
  | PStr string
  | PStrs "string list"
  | PDict "(string \<times> pyval) list"

text \<open>Python's truth value of an object, as \<^verbatim>\<open>if\<close> and \<^verbatim>\<open>and\<close> read it.\<close>

fun truthy :: "pyval \<Rightarrow> bool" where
  "truthy (PBool b) = b"
| "truthy (PInt n) = (n \<noteq> 0)"
| "truthy (PFloat x) = (x \<noteq> 0)"
| "truthy (PStr s) = (s \<noteq> [])"
| "truthy (PStrs xs) = (xs \<noteq> [])"
| "truthy (PDict kvs) = (kvs \<noteq> [])"

text \<open>\<^verbatim>\<open>d.get(key, default)\<close> of a dictionary.\<close>

definition dict_get :: "(string \<rightharpoonup> pyval) \<Rightarrow> string \<Rightarrow> pyval \<Rightarrow> pyval" where
  "dict_get d k dflt = (case d k of None \<Rightarrow> dflt | Some v \<Rightarrow> v)"

section \<open>Confidence scoring\<close>

text \<open>
  Modelled from the spec: the computation of the three features the score reads,
  \<^verbatim>\<open>avg_length\<close>, \<^verbatim>\<open>has_numbers\<close> and \<^verbatim>\<open>has_action_words\<close>; the
  scoring function of the source shows its weights and its bound, not how the features
  are computed from the insights.
  The average insight length is the sum of the lengths over the number of insights
  (zero for no insight); an insight contains a numeric token when one of its characters
  is a digit; it contains an action-indicating verb when a word of the fixed
  vocabulary occurs in it. The vocabulary is a parameter: the specification names four
  of its words (increase, reduce, investigate, optimize) as examples only.
\<close>

definition is_digit :: "char \<Rightarrow> bool" where
  "is_digit c = (c \<in> set ''0123456789'')"

fun starts_with :: "string \<Rightarrow> string \<Rightarrow> bool" where
  "starts_with s [] = True"
| "starts_with [] (w # ws) = False"
| "starts_with (c # s) (w # ws) = (c = w \<and> starts_with s ws)"

fun contains :: "string \<Rightarrow> string \<Rightarrow> bool" where
  "contains [] w = (w = [])"
| "contains (c # s) w = (starts_with (c # s) w \<or> contains s w)"

definition average_length :: "string list \<Rightarrow> real" where
  "average_length insights =
     (if insights = [] then 0
      else real (sum_list (map length insights)) / real (length insights))"

definition any_numeric :: "string list \<Rightarrow> bool" where
  "any_numeric insights = list_ex (\<lambda>insight. list_ex is_digit insight) insights"

definition any_action_word :: "string list \<Rightarrow> string list \<Rightarrow> bool" where
  "any_action_word action_words insights =
     list_ex (\<lambda>insight. list_ex (\<lambda>word. contains insight word) action_words) insights"

text \<open>
  \<^verbatim>\<open>
  def _calculate_confidence(self, insights: List[str], analysis: Dict[str, Any]) -> float:
      confidence = 0.5  # Base confidence
      if avg_length > 50:
          confidence += 0.2
      if has_numbers:
          confidence += 0.1
      if has_action_words:
          confidence += 0.2
      return min(confidence, 1.0)
  \<close>
  The vocabulary of action words comes first among the arguments.
\<close>

definition calculate_confidence ::
  "string list \<Rightarrow> string list \<Rightarrow> (string \<rightharpoonup> pyval) \<Rightarrow> real" where
  "calculate_confidence action_words insights analysis =
     (let avg_length = average_length insights;
          has_numbers = any_numeric insights;
          has_action_words = any_action_word action_words insights;
          confidence = 0.5;
          confidence = (if avg_length > 50 then confidence + 0.2 else confidence);
          confidence = (if has_numbers then confidence + 0.1 else confidence);
          confidence = (if has_action_words then confidence + 0.2 else confidence)
      in min confidence 1.0)"

text \<open>
  The heuristic as the specification words it: a base of 0.5, plus 0.2 for an average
  length above 50, plus 0.1 for a numeric token, plus 0.2 for an action verb, the sum
  clamped to the interval from 0 to 1 on both sides.
\<close>

definition clamp_unit :: "real \<Rightarrow> real" where
  "clamp_unit x = max 0.0 (min 1.0 x)"

definition spec_confidence :: "string list \<Rightarrow> string list \<Rightarrow> real" where
  "spec_confidence action_words insights =
     clamp_unit
       (0.5 + (if average_length insights > 50 then 0.2 else 0)
            + (if any_numeric insights then 0.1 else 0)
            + (if any_action_word action_words insights then 0.2 else 0))"

section \<open>The state of the insight agent\<close>

text \<open>A message of the conversation: its role and its text.\<close>

type_synonym message = "string \<times> string"

text \<open>
  A metric record, \<^verbatim>\<open>{id, name, value, category, description?}\<close>; the state
  holds the records as dictionaries with these keys.
\<close>

record Metric =
  metric_id :: int
  name :: string
  metric_value :: real
  category :: string
  description :: "string option"

text \<open>
  \<^verbatim>\<open>
  class AgentState(TypedDict):
      messages: Annotated[List[BaseMessage], operator.add]
      metrics_data: List[Dict[str, Any]]
      insights: Annotated[List[str], operator.add]
      current_analysis: Dict[str, Any]
      confidence_score: float
  \<close>
\<close>

record AgentState =
  messages :: "message list"
  metrics_data :: "Metric list"
  insights :: "string list"
  current_analysis :: "string \<rightharpoonup> pyval"
  confidence_score :: real

text \<open>The three labels of the conditional edge after the quality check.\<close>

datatype label = Continue | Regenerate | End

section \<open>The conditional edge\<close>

text \<open>
  \<^verbatim>\<open>
  def _should_continue(self, state: AgentState) -> str:
      quality_acceptable = state["current_analysis"].get("quality_acceptable", False)
      confidence = state["confidence_score"]
      if quality_acceptable and confidence >= 0.7:
          return "continue"
      elif confidence < 0.5:
          return "regenerate"
      else:
          return "end"
  \<close>
\<close>

definition should_continue :: "'a AgentState_scheme \<Rightarrow> label" where
  "should_continue state =
     (let quality_acceptable =
            dict_get (current_analysis state) ''quality_acceptable'' (PBool False);
          confidence = confidence_score state
      in if truthy quality_acceptable \<and> confidence \<ge> 0.7 then Continue
         else if confidence < 0.5 then Regenerate
         else End)"

text \<open>
  The decision list as the specification words it, on the confidence alone:
  rule 1, \<open>confidence \<ge> 0.7\<close> gives \<open>end\<close>; rule 2, \<open>confidence < 0.5\<close> gives
  \<open>regenerate\<close>; rule 3, otherwise \<open>end\<close>.
\<close>

definition spec_decision :: "real \<Rightarrow> label" where
  "spec_decision confidence =
     (if confidence \<ge> 0.7 then End
      else if confidence < 0.5 then Regenerate
      else End)"

section \<open>The state container\<close>

text \<open>
  A step of the graph returns a partial state: the fields it writes. The graph merges it
  into the state field by field. A field annotated with \<^verbatim>\<open>operator.add\<close>
  (\<^verbatim>\<open>messages\<close> and \<^verbatim>\<open>insights\<close>) is merged by concatenation, the old
  value first; a field without annotation is replaced by the new value.

  The declaration followed here is the one the agent's own documentation gives as
  implemented. The architecture notes hold an earlier plan of the state, three fields
  and stub nodes, in which \<^verbatim>\<open>insights\<close> carries no annotation.
\<close>

record StateUpdate =
  upd_messages :: "message list option"
  upd_metrics_data :: "Metric list option"
  upd_insights :: "string list option"
  upd_current_analysis :: "(string \<rightharpoonup> pyval) option"
  upd_confidence_score :: "real option"

definition no_update :: StateUpdate where
  "no_update = \<lparr>upd_messages = None, upd_metrics_data = None, upd_insights = None,
                 upd_current_analysis = None, upd_confidence_score = None\<rparr>"

definition apply_update :: "'a AgentState_scheme \<Rightarrow> StateUpdate \<Rightarrow> 'a AgentState_scheme" where
  "apply_update state u =
     state\<lparr>messages :=
             (case upd_messages u of None \<Rightarrow> messages state
              | Some new \<Rightarrow> messages state @ new),
           metrics_data :=
             (case upd_metrics_data u of None \<Rightarrow> metrics_data state | Some new \<Rightarrow> new),
           insights :=
             (case upd_insights u of None \<Rightarrow> insights state
              | Some new \<Rightarrow> insights state @ new),
           current_analysis :=
             (case upd_current_analysis u of None \<Rightarrow> current_analysis state
              | Some new \<Rightarrow> new),
           confidence_score :=
             (case upd_confidence_score u of None \<Rightarrow> confidence_score state
              | Some new \<Rightarrow> new)\<rparr>"

text \<open>The state after a sequence of steps, each merged in turn.\<close>

definition apply_updates :: "'a AgentState_scheme \<Rightarrow> StateUpdate list \<Rightarrow> 'a AgentState_scheme" where
  "apply_updates state us = fold (\<lambda>u s. apply_update s u) us state"

section \<open>The workflow engine\<close>

text \<open>
  Modelled from the spec: the state of one run, \<^verbatim>\<open>WorkflowState\<close>. The
  repository's files show the five fields of \<^verbatim>\<open>AgentState\<close>
  (\<^verbatim>\<open>history\<close>, \<^verbatim>\<open>inputRecords\<close>, \<^verbatim>\<open>insights\<close>, \<^verbatim>\<open>analysis\<close> and
  \<^verbatim>\<open>confidence\<close> of the specification); the retry counter and the routing label
  are the specification's.
\<close>

record WorkflowState = AgentState +
  retryCount :: nat
  routingLabel :: label

text \<open>
  Modelled from the spec: the typed failures of the invocation interface
  (\<^verbatim>\<open>InputError | LLMError | TimeoutError\<close>), the failures of the text-generation
  collaborator, the steps of the pipeline, and the output record of Format with its five
  types. None of them is declared in the repository's files.
\<close>

datatype error = InputError | LLMError | TimeoutError

datatype llm_failure = timeout | rateLimited | malformedResponse

datatype step = Analyze | Generate | QualityGate | Router | Format

datatype insight_type = trend | risk | opportunity | recommendation | observation

record InsightRecord =
  insight_text :: string
  insight_type :: insight_type
  confidence :: real

text \<open>
  Modelled from the spec: the text-generation collaborator,
  \<^verbatim>\<open>generate(promptText) -> responseText\<close> or one of its three failures. It is an
  external service, so its answer may change from one call to the next: it is a function
  of the number of the call (counted from 0 within the run) and of the request text.
\<close>

type_synonym collaborator = "nat \<Rightarrow> string \<Rightarrow> llm_failure + string"

text \<open>
  Modelled from the spec: the constants and tables of the engine, none of which is in
  the repository's files. \<^verbatim>\<open>maxRetries\<close> is the regeneration budget and
  \<^verbatim>\<open>transientBudget\<close> the number of retries after a collaborator failure. The
  score of the Quality Gate is a parameter too, so that a run can be stated for any gate
  output; the repository's scorer is \<open>calculate_confidence\<close>. The text of the request
  built from the analysis, the splitting of a response into insight strings and the
  keyword classification of Format are parameters as well.
\<close>

record EngineConfig =
  maxRetries :: nat
  transientBudget :: nat
  scorer :: "string list \<Rightarrow> (string \<rightharpoonup> pyval) \<Rightarrow> real"
  build_request :: "(string \<rightharpoonup> pyval) \<Rightarrow> string"
  split_response :: "string \<Rightarrow> string list"
  classify :: "string \<Rightarrow> insight_type"

text \<open>
  Modelled from the spec: the state at the start of a run, \<^verbatim>\<open>inputRecords\<close>
  populated and all other fields at zero or empty defaults. The routing label has no
  empty value; it starts at \<open>continue\<close> and is read only after the Quality Gate has
  set it.
\<close>

definition initial_state :: "Metric list \<Rightarrow> WorkflowState" where
  "initial_state records =
     \<lparr>messages = [], metrics_data = records, insights = [], current_analysis = Map.empty,
      confidence_score = 0, retryCount = 0, routingLabel = Continue\<rparr>"

text \<open>
  Modelled from the spec: the Analyze step, whose code is not in the repository's files.
  It computes the record count, the distinct categories and the range of the values, and
  an empty input is an \<open>InputError\<close>. The keys of the analysis are the ones the
  request of the source reads: \<^verbatim>\<open>analysis['total_metrics']\<close>,
  \<^verbatim>\<open>analysis['categories']\<close>, \<^verbatim>\<open>analysis['value_ranges']['min']\<close> and
  \<^verbatim>\<open>analysis['value_ranges']['max']\<close>. The step replaces the analysis of the state.
\<close>

fun analyze :: "Metric list \<Rightarrow> error + (string \<rightharpoonup> pyval)" where
  "analyze [] = Inl InputError"
| "analyze (r # rs) =
     Inr [''total_metrics'' \<mapsto> PInt (int (length (r # rs))),
          ''categories'' \<mapsto> PStrs (remdups (map category (r # rs))),
          ''value_ranges'' \<mapsto>
             PDict [(''min'', PFloat (fold min (map metric_value rs) (metric_value r))),
                    (''max'', PFloat (fold max (map metric_value rs) (metric_value r)))]]"

definition analyze_step :: "WorkflowState \<Rightarrow> error + WorkflowState" where
  "analyze_step state =
     (case analyze (metrics_data state) of
        Inl e \<Rightarrow> Inl e
      | Inr analysis \<Rightarrow>
          Inr (apply_update state (no_update\<lparr>upd_current_analysis := Some analysis\<rparr>)))"

text \<open>
  Modelled from the spec: the call of the collaborator inside the Generate step, whose
  code is not in the repository's files. A failed call is retried while the transient
  budget lasts; the result is the first response, or the last failure once the budget is
  spent. The second component is the number of the next call. The delays between the
  attempts are not modelled.
\<close>

fun call_collaborator ::
  "collaborator \<Rightarrow> string \<Rightarrow> nat \<Rightarrow> nat \<Rightarrow> (llm_failure + string) \<times> nat" where
  "call_collaborator llm request i 0 = (llm i request, Suc i)"
| "call_collaborator llm request i (Suc budget) =
     (case llm i request of
        Inr response \<Rightarrow> (Inr response, Suc i)
      | Inl failure \<Rightarrow> call_collaborator llm request (Suc i) budget)"

text \<open>
  Modelled from the spec: the Generate step. It builds the request from the analysis and
  calls the collaborator; on success it appends the insight strings of the response to
  \<^verbatim>\<open>insights\<close> and the request and response to the history, on an exhausted
  budget it surfaces \<open>LLMError\<close>.
\<close>

definition generate_step ::
  "EngineConfig \<Rightarrow> collaborator \<Rightarrow> nat \<Rightarrow> WorkflowState \<Rightarrow> (error + WorkflowState) \<times> nat" where
  "generate_step cfg llm i state =
     (let request = build_request cfg (current_analysis state) in
      case call_collaborator llm request i (transientBudget cfg) of
        (Inl failure, i') \<Rightarrow> (Inl LLMError, i')
      | (Inr response, i') \<Rightarrow>
          (Inr (apply_update state
                  (no_update\<lparr>upd_insights := Some (split_response cfg response),
                             upd_messages :=
                               Some [(''user'', request), (''assistant'', response)]\<rparr>)),
           i'))"

text \<open>
  Modelled from the spec: the Quality Gate step. It scores the current insights, stores
  the score and sets the routing label; the label is the one the conditional edge of the
  source computes from the scored state.
\<close>

definition quality_gate :: "EngineConfig \<Rightarrow> WorkflowState \<Rightarrow> WorkflowState" where
  "quality_gate cfg state =
     (let scored = apply_update state
            (no_update\<lparr>upd_confidence_score :=
               Some (scorer cfg (insights state) (current_analysis state))\<rparr>)
      in scored\<lparr>routingLabel := should_continue scored\<rparr>)"

text \<open>
  Modelled from the spec: the Router and its transition table. \<open>end\<close> goes to Format;
  \<open>regenerate\<close> with \<open>retryCount < maxRetries\<close> increments the counter and goes to
  Generate; \<open>regenerate\<close> with the budget spent goes to Format (forced acceptance).
  The table has no row for \<open>continue\<close>, the label of the source for an accepted
  result: it goes to Format, the only step after the Router other than Generate.
\<close>

datatype next_step = ToGenerate | ToFormat

definition router :: "EngineConfig \<Rightarrow> WorkflowState \<Rightarrow> next_step \<times> WorkflowState" where
  "router cfg state =
     (case routingLabel state of
        End \<Rightarrow> (ToFormat, state)
      | Continue \<Rightarrow> (ToFormat, state)
      | Regenerate \<Rightarrow>
          if retryCount state < maxRetries cfg
          then (ToGenerate, state\<lparr>retryCount := retryCount state + 1\<rparr>)
          else (ToFormat, state))"

text \<open>
  Modelled from the spec: the Format step. Each insight becomes a record with its type
  and the final confidence of the run.
\<close>

definition format_step :: "EngineConfig \<Rightarrow> WorkflowState \<Rightarrow> InsightRecord list" where
  "format_step cfg state =
     map (\<lambda>t. \<lparr>insight_text = t, insight_type = classify cfg t,
                confidence = confidence_score state\<rparr>)
         (insights state)"

text \<open>
  Modelled from the spec: what a run leaves behind. The trace lists the steps the engine
  invoked, in order, each with the state after it (a Generate step that fails leaves the
  state as it was); \<open>llm_calls\<close> counts the calls of the collaborator; the outcome is
  the typed failure, or the output records with the overall confidence.
\<close>

record Run =
  trace :: "(step \<times> WorkflowState) list"
  llm_calls :: nat
  outcome :: "error + (InsightRecord list \<times> real)"

text \<open>The retry counter is written by the Router alone.\<close>

lemma generate_step_retryCount:
  "generate_step cfg llm i s = (Inr s', i') \<Longrightarrow> retryCount s' = retryCount s"
  by (auto simp: generate_step_def apply_update_def Let_def split: prod.splits sum.splits)

lemma quality_gate_retryCount: "retryCount (quality_gate cfg s) = retryCount s"
  by (simp add: quality_gate_def apply_update_def Let_def)

lemma router_ToGenerate:
  "router cfg s = (ToGenerate, s') \<Longrightarrow>
     retryCount s < maxRetries cfg \<and> retryCount s' = Suc (retryCount s)"
  by (auto simp: router_def split: label.splits if_splits)

text \<open>
  Modelled from the spec: the control loop of the engine from the Generate step on,
  Generate, Quality Gate, Router and then Generate again or Format. A failure of
  Generate ends the run at once, bypassing Format. The loop is driven by the retry
  counter, which the Router compares with the fixed cap.
\<close>

function regenerate_loop :: "EngineConfig \<Rightarrow> collaborator \<Rightarrow> nat \<Rightarrow> WorkflowState \<Rightarrow> Run" where
  "regenerate_loop cfg llm i state =
     (case generate_step cfg llm i state of
        (Inl e, i') \<Rightarrow> \<lparr>trace = [(Generate, state)], llm_calls = i', outcome = Inl e\<rparr>
      | (Inr generated, i') \<Rightarrow>
          (let gated = quality_gate cfg generated in
           case router cfg gated of
             (ToGenerate, routed) \<Rightarrow>
               (let rest = regenerate_loop cfg llm i' routed in
                rest\<lparr>trace := (Generate, generated) # (QualityGate, gated)
                                 # (Router, routed) # trace rest\<rparr>)
           | (ToFormat, routed) \<Rightarrow>
               \<lparr>trace = [(Generate, generated), (QualityGate, gated), (Router, routed),
                          (Format, routed)],
                llm_calls = i',
                outcome = Inr (format_step cfg routed, confidence_score routed)\<rparr>))"
  by pat_completeness auto
termination
proof (relation "measure (\<lambda>(cfg, llm, i, state). maxRetries cfg - retryCount state)")
  show "wf (measure (\<lambda>(cfg, llm, i, state). maxRetries cfg - retryCount state))"
    by simp
next
  fix cfg :: EngineConfig and llm :: collaborator and i i' :: nat
    and state generated gated routed :: WorkflowState
    and result :: "error + WorkflowState" and next_step :: next_step
  assume gen: "(result, i') = generate_step cfg llm i state" "result = Inr generated"
    and gate: "gated = quality_gate cfg generated"
    and route: "(next_step, routed) = router cfg gated" "next_step = ToGenerate"
  from gen have "retryCount generated = retryCount state"
    by (simp add: generate_step_retryCount [of cfg llm i state generated i'])
  with gate have "retryCount gated = retryCount state"
    by (simp add: quality_gate_retryCount)
  moreover from route have "retryCount gated < maxRetries cfg"
    and "retryCount routed = Suc (retryCount gated)"
    by (simp_all add: router_ToGenerate [of cfg gated routed])
  ultimately have "maxRetries cfg - retryCount routed < maxRetries cfg - retryCount state"
    by arith
  then show "((cfg, llm, i', routed), (cfg, llm, i, state))
      \<in> measure (\<lambda>(cfg, llm, i, state). maxRetries cfg - retryCount state)"
    by simp
qed

declare regenerate_loop.simps [simp del]

text \<open>
  Modelled from the spec: the single entry point. An empty batch is an \<open>InputError\<close>,
  returned before any step runs; otherwise Analyze runs on the initial state and the
  loop follows. The deadline of the whole run (\<open>TimeoutError\<close>) is real time and is
  not modelled.
\<close>

definition invoke :: "EngineConfig \<Rightarrow> collaborator \<Rightarrow> Metric list \<Rightarrow> Run" where
  "invoke cfg llm records =
     (if records = [] then \<lparr>trace = [], llm_calls = 0, outcome = Inl InputError\<rparr>
      else
        case analyze_step (initial_state records) of
          Inl e \<Rightarrow>
            \<lparr>trace = [(Analyze, initial_state records)], llm_calls = 0, outcome = Inl e\<rparr>
        | Inr analyzed \<Rightarrow>
            (let rest = regenerate_loop cfg llm 0 analyzed in
             rest\<lparr>trace := (Analyze, analyzed) # trace rest\<rparr>))"

text \<open>
  Modelled from the spec: the number of Generate steps of a run, and what the engine
  hands to the persistence collaborator. The commit is all or nothing and happens only
  after Format: a failed run hands over no record. The endpoint of the source agrees: it
  stores the insights of the result the agent returns, and an exception of the agent
  becomes a server error before anything is stored.
\<close>

definition generate_count :: "Run \<Rightarrow> nat" where
  "generate_count run = length (filter (\<lambda>e. fst e = Generate) (trace run))"

definition handed_to_persistence :: "Run \<Rightarrow> InsightRecord list" where
  "handed_to_persistence run =
     (case outcome run of Inl e \<Rightarrow> [] | Inr (records, c) \<Rightarrow> records)"

text \<open>The confidence of a state lies in the unit interval.\<close>

definition unit_confidence :: "WorkflowState \<Rightarrow> bool" where
  "unit_confidence s = (0 \<le> confidence_score s \<and> confidence_score s \<le> 1)"

section \<open>Worked inputs\<close>

text \<open>
  A configuration with a regeneration budget of 2 and a transient budget of 1, scoring
  with the scorer of the source over the four action words the specification names; and
  the batch of Scenario A, three records with the values 10, 20 and 30 in the categories
  sales, sales and marketing.
\<close>

definition example_config :: EngineConfig where
  "example_config =
     \<lparr>maxRetries = 2, transientBudget = 1,
      scorer = calculate_confidence [''increase'', ''reduce'', ''investigate'', ''optimize''],
      build_request = (\<lambda>analysis. ''Generate 3-5 actionable business insights''),
      split_response = (\<lambda>response. [response]),
      classify = (\<lambda>insight. observation)\<rparr>"

definition example_batch :: "Metric list" where
  "example_batch =
     [\<lparr>metric_id = 1, name = ''q1'', metric_value = 10, category = ''sales'',
       description = None\<rparr>,
      \<lparr>metric_id = 2, name = ''q2'', metric_value = 20, category = ''sales'',
       description = None\<rparr>,
      \<lparr>metric_id = 3, name = ''ads'', metric_value = 30, category = ''marketing'',
       description = Some ''campaign spend''\<rparr>]"

section \<open>The routing decision\<close>

text \<open>
  C1, as the specification states it: for every state the routing decision is the
  three-rule list on the confidence alone, \<open>end\<close> from 0.7 up, \<open>regenerate\<close> below
  0.5, \<open>end\<close> in between. The source differs on one case. A state whose analysis marks
  the quality as acceptable, with a confidence of 0.8, gets the label \<open>continue\<close>, where
  the list says \<open>end\<close>.
\<close>

theorem should_continue_counterexample:
  "should_continue
     \<lparr>messages = [], metrics_data = [], insights = [],
      current_analysis = [''quality_acceptable'' \<mapsto> PBool True],
      confidence_score = 0.8\<rparr> = Continue
   \<and> spec_decision 0.8 = End
   \<and> should_continue
     \<lparr>messages = [], metrics_data = [], insights = [],
      current_analysis = [''quality_acceptable'' \<mapsto> PBool True],
      confidence_score = 0.8\<rparr> \<noteq> spec_decision 0.8"
  by (simp add: should_continue_def spec_decision_def Let_def dict_get_def)

text \<open>
  C1, amended: for every state the routing decision is \<open>continue\<close> when the analysis
  marks the quality as acceptable and the confidence is at least 0.7, and the three-rule
  list of the specification in every other case. The label is \<open>regenerate\<close> exactly
  when the confidence is below 0.5.
\<close>

theorem should_continue_decision:
  "should_continue st =
     (if truthy (dict_get (current_analysis st) ''quality_acceptable'' (PBool False))
         \<and> confidence_score st \<ge> 0.7
      then Continue else spec_decision (confidence_score st))
   \<and> (should_continue st = Regenerate) = (confidence_score st < 0.5)"
  by (simp add: should_continue_def spec_decision_def Let_def)

section \<open>The confidence score\<close>

lemma calculate_confidence_lower: "0.5 \<le> calculate_confidence action_words ins analysis"
  by (simp add: calculate_confidence_def Let_def)

lemma calculate_confidence_upper: "calculate_confidence action_words ins analysis \<le> 1"
  by (simp add: calculate_confidence_def Let_def)

text \<open>
  C3: for every insight sequence the score of the source equals the weighted heuristic
  of the specification: 0.5, plus 0.2 for an average length above 50, plus 0.1 for a
  numeric token, plus 0.2 for an action verb, clamped to the interval from 0 to 1 on
  both sides. The source bounds the sum from above only; the lower bound never binds.
\<close>

theorem calculate_confidence_is_heuristic:
  "calculate_confidence action_words ins analysis = spec_confidence action_words ins"
  by (simp add: calculate_confidence_def spec_confidence_def clamp_unit_def Let_def)

text \<open>
  C4: a single insight of 20 characters with no digit and no action verb scores exactly
  0.5, and a state holding that insight and that score is routed to \<open>end\<close>: no
  regeneration is triggered.
\<close>

theorem short_plain_insight_accepted:
  assumes "length s = 20" and "\<not> list_ex is_digit s"
    and "\<not> list_ex (\<lambda>word. contains s word) action_words"
  shows "calculate_confidence action_words [s] analysis = 0.5
       \<and> should_continue (st\<lparr>insights := [s],
            confidence_score := calculate_confidence action_words [s] analysis\<rparr>) = End"
proof -
  have "calculate_confidence action_words [s] analysis = 0.5"
    using assms
    by (simp add: calculate_confidence_def average_length_def any_numeric_def
        any_action_word_def Let_def)
  then show ?thesis
    by (simp add: should_continue_def Let_def)
qed

theorem short_plain_insight_accepted_witness:
  "length ''Sales remain steady.'' = 20
   \<and> calculate_confidence [''increase'', ''reduce'', ''investigate'', ''optimize'']
        [''Sales remain steady.''] Map.empty = 0.5
   \<and> should_continue
        \<lparr>messages = [], metrics_data = [], insights = [''Sales remain steady.''],
         current_analysis = Map.empty,
         confidence_score =
           calculate_confidence [''increase'', ''reduce'', ''investigate'', ''optimize'']
             [''Sales remain steady.''] Map.empty\<rparr> = End"
proof -
  have len: "length ''Sales remain steady.'' = 20" by simp
  have nodigit: "\<not> list_ex is_digit ''Sales remain steady.''"
    by (simp add: is_digit_def)
  have noverb: "\<not> list_ex (\<lambda>word. contains ''Sales remain steady.'' word)
      [''increase'', ''reduce'', ''investigate'', ''optimize'']"
    by simp
  show ?thesis
    using short_plain_insight_accepted [OF len nodigit noverb, of Map.empty
        "\<lparr>messages = [], metrics_data = [], insights = [], current_analysis = Map.empty,
          confidence_score = 0\<rparr>"]
    by simp
qed

text \<open>
  C10: for every insight sequence the score of the source is at least 0.5, so the test
  \<open>confidence < 0.5\<close> fails on it, and a state that holds such a score is never routed
  to \<open>regenerate\<close>.
\<close>

theorem scorer_never_regenerates:
  "0.5 \<le> calculate_confidence action_words ins analysis
   \<and> \<not> calculate_confidence action_words ins analysis < 0.5
   \<and> should_continue
        (st\<lparr>confidence_score := calculate_confidence action_words ins analysis\<rparr>)
       \<noteq> Regenerate"
  using calculate_confidence_lower [of action_words ins analysis]
  by (simp add: should_continue_def Let_def)

section \<open>Insights are append-only\<close>

lemma apply_update_insights:
  "\<exists>new. insights (apply_update s u) = insights s @ new"
  by (cases "upd_insights u") (simp_all add: apply_update_def)

lemma apply_updates_insights:
  "\<exists>new. insights (apply_updates s us) = insights s @ new"
  unfolding apply_updates_def
proof (induction us arbitrary: s)
  case Nil
  show ?case by simp
next
  case (Cons u us)
  obtain n1 where n1: "insights (apply_update s u) = insights s @ n1"
    using apply_update_insights by blast
  obtain n2 where "insights (fold (\<lambda>u s. apply_update s u) us (apply_update s u))
      = insights (apply_update s u) @ n2"
    using Cons.IH by blast
  with n1 show ?case by simp
qed

text \<open>
  C6: whatever the steps of a run write, regeneration attempts included, the insights of
  the state only grow: after any sequence of merged step results the list is at least as
  long as before, and every insight accumulated before is still there at its position.
\<close>

theorem insights_append_only:
  "length (insights s) \<le> length (insights (apply_updates s us))
   \<and> take (length (insights s)) (insights (apply_updates s us)) = insights s
   \<and> (\<forall>i < length (insights s). insights (apply_updates s us) ! i = insights s ! i)"
proof -
  obtain new where "insights (apply_updates s us) = insights s @ new"
    using apply_updates_insights by blast
  then show ?thesis by (simp add: nth_append)
qed

theorem insights_append_only_witness:
  "(0::nat) < length (insights
       \<lparr>messages = [], metrics_data = [], insights = [''Revenue grew''],
        current_analysis = Map.empty, confidence_score = 0\<rparr>)
   \<and> insights (apply_updates
       \<lparr>messages = [], metrics_data = [], insights = [''Revenue grew''],
        current_analysis = Map.empty, confidence_score = 0\<rparr>
       [no_update\<lparr>upd_insights := Some [''Reduce churn'']\<rparr>,
        no_update\<lparr>upd_confidence_score := Some 0.7\<rparr>,
        no_update\<lparr>upd_insights := Some [''Investigate costs'']\<rparr>]) ! 0
     = ''Revenue grew''
   \<and> length (insights (apply_updates
       \<lparr>messages = [], metrics_data = [], insights = [''Revenue grew''],
        current_analysis = Map.empty, confidence_score = 0\<rparr>
       [no_update\<lparr>upd_insights := Some [''Reduce churn'']\<rparr>,
        no_update\<lparr>upd_confidence_score := Some 0.7\<rparr>,
        no_update\<lparr>upd_insights := Some [''Investigate costs'']\<rparr>])) = 3"
proof -
  have "insights (apply_updates
       \<lparr>messages = [], metrics_data = [], insights = [''Revenue grew''],
        current_analysis = Map.empty, confidence_score = 0\<rparr>
       [no_update\<lparr>upd_insights := Some [''Reduce churn'']\<rparr>,
        no_update\<lparr>upd_confidence_score := Some 0.7\<rparr>,
        no_update\<lparr>upd_insights := Some [''Investigate costs'']\<rparr>])
     = [''Revenue grew'', ''Reduce churn'', ''Investigate costs'']"
    by (simp add: apply_updates_def apply_update_def no_update_def)
  then show ?thesis
    using insights_append_only [of
        "\<lparr>messages = [], metrics_data = [], insights = [''Revenue grew''],
          current_analysis = Map.empty, confidence_score = 0\<rparr>"
        "[no_update\<lparr>upd_insights := Some [''Reduce churn'']\<rparr>,
          no_update\<lparr>upd_confidence_score := Some 0.7\<rparr>,
          no_update\<lparr>upd_insights := Some [''Investigate costs'']\<rparr>]"]
    by simp
qed

section \<open>Runs of the engine\<close>

text \<open>One round of the loop, by the result of Generate and the decision of the Router.\<close>

lemma regenerate_loop_failed:
  "generate_step cfg llm i s = (Inl e, i') \<Longrightarrow>
     regenerate_loop cfg llm i s = \<lparr>trace = [(Generate, s)], llm_calls = i', outcome = Inl e\<rparr>"
  by (simp add: regenerate_loop.simps [of cfg llm i s])

lemma regenerate_loop_formatted:
  "generate_step cfg llm i s = (Inr g, i') \<Longrightarrow>
   router cfg (quality_gate cfg g) = (ToFormat, r) \<Longrightarrow>
     regenerate_loop cfg llm i s =
       \<lparr>trace = [(Generate, g), (QualityGate, quality_gate cfg g), (Router, r), (Format, r)],
        llm_calls = i',
        outcome = Inr (format_step cfg r, confidence_score r)\<rparr>"
  by (simp add: regenerate_loop.simps [of cfg llm i s])

lemma regenerate_loop_again:
  "generate_step cfg llm i s = (Inr g, i') \<Longrightarrow>
   router cfg (quality_gate cfg g) = (ToGenerate, r) \<Longrightarrow>
     regenerate_loop cfg llm i s =
       (regenerate_loop cfg llm i' r)
         \<lparr>trace := (Generate, g) # (QualityGate, quality_gate cfg g) # (Router, r)
                    # trace (regenerate_loop cfg llm i' r)\<rparr>"
  by (simp add: regenerate_loop.simps [of cfg llm i s] Let_def)

lemma generate_step_cases:
  obtains (failed) i' where "generate_step cfg llm i s = (Inl LLMError, i')"
  | (generated) g i' where "generate_step cfg llm i s = (Inr g, i')"
proof (cases "call_collaborator llm (build_request cfg (current_analysis s)) i
    (transientBudget cfg)")
  case (Pair res i')
  show thesis
  proof (cases res)
    case (Inl failure)
    with Pair have "generate_step cfg llm i s = (Inl LLMError, i')"
      by (simp add: generate_step_def Let_def)
    then show thesis by (rule failed)
  next
    case (Inr response)
    with Pair have "\<exists>g. generate_step cfg llm i s = (Inr g, i')"
      by (simp add: generate_step_def Let_def)
    then show thesis using generated by blast
  qed
qed

lemma router_cases:
  obtains (again) r where "router cfg s = (ToGenerate, r)"
  | (format) "router cfg s = (ToFormat, s)"
proof (cases "routingLabel s = Regenerate \<and> retryCount s < maxRetries cfg")
  case True
  then have "router cfg s = (ToGenerate, s\<lparr>retryCount := retryCount s + 1\<rparr>)"
    by (simp add: router_def)
  then show thesis by (rule again)
next
  case False
  then have "router cfg s = (ToFormat, s)"
    by (cases "routingLabel s") (auto simp: router_def)
  then show thesis by (rule format)
qed

lemma loop_generate_bound:
  "generate_count (regenerate_loop cfg llm i s) \<le> Suc (maxRetries cfg - retryCount s)"
proof (induction "maxRetries cfg - retryCount s" arbitrary: i s rule: less_induct)
  case less
  show ?case
  proof (cases rule: generate_step_cases [of cfg llm i s])
    case (failed i')
    then show ?thesis
      by (simp add: regenerate_loop_failed generate_count_def)
  next
    case (generated g i')
    show ?thesis
    proof (cases rule: router_cases [of cfg "quality_gate cfg g"])
      case (again r)
      have rc: "retryCount (quality_gate cfg g) = retryCount s"
        using generated by (simp add: quality_gate_retryCount generate_step_retryCount)
      from router_ToGenerate [OF again] rc
      have lt: "retryCount s < maxRetries cfg" and r: "retryCount r = Suc (retryCount s)"
        by simp_all
      then have "maxRetries cfg - retryCount r < maxRetries cfg - retryCount s"
        by arith
      then have "generate_count (regenerate_loop cfg llm i' r)
          \<le> Suc (maxRetries cfg - retryCount r)"
        by (rule less)
      moreover have "generate_count (regenerate_loop cfg llm i s)
          = Suc (generate_count (regenerate_loop cfg llm i' r))"
        by (simp add: regenerate_loop_again [OF generated again] generate_count_def)
      ultimately show ?thesis using lt r by arith
    next
      case format
      then show ?thesis
        by (simp add: regenerate_loop_formatted [OF generated format] generate_count_def)
    qed
  qed
qed



lemma loop_ends:
  "outcome (regenerate_loop cfg llm i s) = Inl LLMError
   \<or> (\<exists>out tr final. outcome (regenerate_loop cfg llm i s) = Inr out
         \<and> trace (regenerate_loop cfg llm i s) = tr @ [(Format, final)])"
proof (induction "maxRetries cfg - retryCount s" arbitrary: i s rule: less_induct)
  case less
  show ?case
  proof (cases rule: generate_step_cases [of cfg llm i s])
    case (failed i')
    then show ?thesis
      by (simp add: regenerate_loop_failed)
  next
    case (generated g i')
    show ?thesis
    proof (cases rule: router_cases [of cfg "quality_gate cfg g"])
      case (again r)
      have rc: "retryCount (quality_gate cfg g) = retryCount s"
        using generated by (simp add: quality_gate_retryCount generate_step_retryCount)
      from router_ToGenerate [OF again] rc
      have "maxRetries cfg - retryCount r < maxRetries cfg - retryCount s"
        by arith
      then have "outcome (regenerate_loop cfg llm i' r) = Inl LLMError
          \<or> (\<exists>out tr final. outcome (regenerate_loop cfg llm i' r) = Inr out
                \<and> trace (regenerate_loop cfg llm i' r) = tr @ [(Format, final)])"
        by (rule less)
      then show ?thesis
      proof
        assume "outcome (regenerate_loop cfg llm i' r) = Inl LLMError"
        then show ?thesis
          by (simp add: regenerate_loop_again [OF generated again])
      next
        assume "\<exists>out tr final. outcome (regenerate_loop cfg llm i' r) = Inr out
                \<and> trace (regenerate_loop cfg llm i' r) = tr @ [(Format, final)]"
        then obtain out tr final
          where out: "outcome (regenerate_loop cfg llm i' r) = Inr out"
            and tr: "trace (regenerate_loop cfg llm i' r) = tr @ [(Format, final)]"
          by blast
        have "trace (regenerate_loop cfg llm i s)
            = ((Generate, g) # (QualityGate, quality_gate cfg g) # (Router, r) # tr)
              @ [(Format, final)]"
          by (simp add: regenerate_loop_again [OF generated again] tr)
        moreover have "outcome (regenerate_loop cfg llm i s) = Inr out"
          by (simp add: regenerate_loop_again [OF generated again] out)
        ultimately show ?thesis by blast
      qed
    next
      case format
      have "trace (regenerate_loop cfg llm i s)
          = [(Generate, g), (QualityGate, quality_gate cfg g),
             (Router, quality_gate cfg g)] @ [(Format, quality_gate cfg g)]"
        by (simp add: regenerate_loop_formatted [OF generated format])
      moreover have "\<exists>out. outcome (regenerate_loop cfg llm i s) = Inr out"
        by (simp add: regenerate_loop_formatted [OF generated format])
      ultimately show ?thesis by blast
    qed
  qed
qed

lemma low_confidence_label:
  "confidence_score (quality_gate cfg s) < 0.5 \<Longrightarrow>
     routingLabel (quality_gate cfg s) = Regenerate"
  by (simp add: quality_gate_def should_continue_def apply_update_def no_update_def Let_def)

lemma loop_low_confidence:
  "retryCount s \<le> maxRetries cfg \<Longrightarrow>
   outcome (regenerate_loop cfg llm i s) = Inr out \<Longrightarrow>
   \<forall>e \<in> set (trace (regenerate_loop cfg llm i s)).
      fst e = QualityGate \<longrightarrow> confidence_score (snd e) < 0.5 \<Longrightarrow>
       generate_count (regenerate_loop cfg llm i s) = Suc (maxRetries cfg - retryCount s)
       \<and> (\<exists>tr final. trace (regenerate_loop cfg llm i s) = tr @ [(Format, final)]
             \<and> retryCount final = maxRetries cfg \<and> routingLabel final = Regenerate)"
proof (induction "maxRetries cfg - retryCount s" arbitrary: i s rule: less_induct)
  case less
  show ?case
  proof (cases rule: generate_step_cases [of cfg llm i s])
    case (failed i')
    with less.prems(2) show ?thesis
      by (simp add: regenerate_loop_failed)
  next
    case (generated g i')
    have rc: "retryCount (quality_gate cfg g) = retryCount s"
      using generated by (simp add: quality_gate_retryCount generate_step_retryCount)
    show ?thesis
    proof (cases rule: router_cases [of cfg "quality_gate cfg g"])
      case (again r)
      from router_ToGenerate [OF again] rc
      have lt: "retryCount s < maxRetries cfg" and r: "retryCount r = Suc (retryCount s)"
        by simp_all
      have dec: "maxRetries cfg - retryCount r < maxRetries cfg - retryCount s"
        using lt r by arith
      have le: "retryCount r \<le> maxRetries cfg"
        using lt r by arith
      have out: "outcome (regenerate_loop cfg llm i' r) = Inr out"
        using less.prems(2) by (simp add: regenerate_loop_again [OF generated again])
      have low: "\<forall>e \<in> set (trace (regenerate_loop cfg llm i' r)).
          fst e = QualityGate \<longrightarrow> confidence_score (snd e) < 0.5"
        using less.prems(3) by (simp add: regenerate_loop_again [OF generated again])
      from less.hyps [OF dec le out low]
      obtain tr final where cnt: "generate_count (regenerate_loop cfg llm i' r)
            = Suc (maxRetries cfg - retryCount r)"
        and tr: "trace (regenerate_loop cfg llm i' r) = tr @ [(Format, final)]"
        and fin: "retryCount final = maxRetries cfg" "routingLabel final = Regenerate"
        by blast
      have "generate_count (regenerate_loop cfg llm i s)
          = Suc (generate_count (regenerate_loop cfg llm i' r))"
        by (simp add: regenerate_loop_again [OF generated again] generate_count_def)
      with cnt lt r have "generate_count (regenerate_loop cfg llm i s)
          = Suc (maxRetries cfg - retryCount s)"
        by arith
      moreover have "trace (regenerate_loop cfg llm i s)
          = ((Generate, g) # (QualityGate, quality_gate cfg g) # (Router, r) # tr)
            @ [(Format, final)]"
        by (simp add: regenerate_loop_again [OF generated again] tr)
      ultimately show ?thesis using fin by blast
    next
      case format
      have "confidence_score (quality_gate cfg g) < 0.5"
        using less.prems(3) by (simp add: regenerate_loop_formatted [OF generated format])
      then have lbl: "routingLabel (quality_gate cfg g) = Regenerate"
        by (rule low_confidence_label)
      have "\<not> retryCount (quality_gate cfg g) < maxRetries cfg"
        using format lbl by (auto simp: router_def)
      with rc less.prems(1) have eq: "retryCount (quality_gate cfg g) = maxRetries cfg"
        and eq': "retryCount s = maxRetries cfg"
        by simp_all
      have "trace (regenerate_loop cfg llm i s)
          = [(Generate, g), (QualityGate, quality_gate cfg g),
             (Router, quality_gate cfg g)] @ [(Format, quality_gate cfg g)]"
        by (simp add: regenerate_loop_formatted [OF generated format])
      moreover have "generate_count (regenerate_loop cfg llm i s)
          = Suc (maxRetries cfg - retryCount s)"
        by (simp add: regenerate_loop_formatted [OF generated format] generate_count_def eq')
      ultimately show ?thesis using eq lbl by blast
    qed
  qed
qed

lemma analyze_step_nonempty:
  assumes "records \<noteq> []"
  shows "\<exists>analysis. analyze records = Inr analysis
     \<and> analyze_step (initial_state records)
         = Inr ((initial_state records)\<lparr>current_analysis := analysis\<rparr>)"
proof -
  from assms obtain r rs where "records = r # rs"
    by (cases records) auto
  then show ?thesis
    by (simp add: analyze_step_def initial_state_def apply_update_def no_update_def)
qed

lemma invoke_nonempty:
  assumes "records \<noteq> []"
  obtains analyzed where
    "invoke cfg llm records =
       (regenerate_loop cfg llm 0 analyzed)
         \<lparr>trace := (Analyze, analyzed) # trace (regenerate_loop cfg llm 0 analyzed)\<rparr>"
    and "retryCount analyzed = 0" and "insights analyzed = []"
    and "confidence_score analyzed = 0"
proof -
  from analyze_step_nonempty [OF assms] obtain analysis
    where step: "analyze_step (initial_state records)
         = Inr ((initial_state records)\<lparr>current_analysis := analysis\<rparr>)"
    by blast
  let ?a = "(initial_state records)\<lparr>current_analysis := analysis\<rparr>"
  have "invoke cfg llm records =
       (regenerate_loop cfg llm 0 ?a)
         \<lparr>trace := (Analyze, ?a) # trace (regenerate_loop cfg llm 0 ?a)\<rparr>"
    using assms by (simp add: invoke_def step Let_def)
  moreover have "retryCount ?a = 0" "insights ?a = []" "confidence_score ?a = 0"
    by (simp_all add: initial_state_def)
  ultimately show thesis by (rule that)
qed

section \<open>Bounded regeneration\<close>

text \<open>
  C2: every run makes at most \<open>maxRetries + 1\<close> Generate steps, whatever the Quality
  Gate scores, and a run that does not fail with a typed error ends with the Format step.
  When every score the Quality Gate gives in the run is below 0.5 and the run does not
  fail, it makes exactly \<open>maxRetries + 1\<close> Generate steps and then reaches Format by
  forced acceptance: the label is still \<open>regenerate\<close> and the retry counter stands at
  the cap. That every run returns is the totality of \<open>invoke\<close>.
\<close>

theorem regeneration_bounded:
  "generate_count (invoke cfg llm records) \<le> maxRetries cfg + 1
   \<and> (outcome (invoke cfg llm records) = Inl InputError
      \<or> outcome (invoke cfg llm records) = Inl LLMError
      \<or> (\<exists>out tr final. outcome (invoke cfg llm records) = Inr out
            \<and> trace (invoke cfg llm records) = tr @ [(Format, final)]))
   \<and> ((\<forall>e \<in> set (trace (invoke cfg llm records)).
          fst e = QualityGate \<longrightarrow> confidence_score (snd e) < 0.5) \<longrightarrow>
        (\<forall>out. outcome (invoke cfg llm records) = Inr out \<longrightarrow>
           generate_count (invoke cfg llm records) = maxRetries cfg + 1
           \<and> (\<exists>tr final. trace (invoke cfg llm records) = tr @ [(Format, final)]
                 \<and> retryCount final = maxRetries cfg
                 \<and> routingLabel final = Regenerate)))"
proof (cases "records = []")
  case True
  then show ?thesis
    by (simp add: invoke_def generate_count_def)
next
  case False
  then obtain analyzed where inv: "invoke cfg llm records =
       (regenerate_loop cfg llm 0 analyzed)
         \<lparr>trace := (Analyze, analyzed) # trace (regenerate_loop cfg llm 0 analyzed)\<rparr>"
    and rc: "retryCount analyzed = 0"
    by (rule invoke_nonempty)
  let ?loop = "regenerate_loop cfg llm 0 analyzed"
  have cnt: "generate_count (invoke cfg llm records) = generate_count ?loop"
    by (simp add: inv generate_count_def)
  have out: "outcome (invoke cfg llm records) = outcome ?loop"
    by (simp add: inv)
  have tr: "trace (invoke cfg llm records) = (Analyze, analyzed) # trace ?loop"
    by (simp add: inv)
  have bound: "generate_count (invoke cfg llm records) \<le> maxRetries cfg + 1"
    using loop_generate_bound [of cfg llm 0 analyzed] by (simp add: cnt rc)
  have ends: "outcome (invoke cfg llm records) = Inl InputError
      \<or> outcome (invoke cfg llm records) = Inl LLMError
      \<or> (\<exists>out tr final. outcome (invoke cfg llm records) = Inr out
            \<and> trace (invoke cfg llm records) = tr @ [(Format, final)])"
    using loop_ends [of cfg llm 0 analyzed]
  proof
    assume "outcome ?loop = Inl LLMError"
    then show ?thesis by (simp add: out)
  next
    assume "\<exists>out tr final. outcome ?loop = Inr out \<and> trace ?loop = tr @ [(Format, final)]"
    then obtain out' tr' final where "outcome ?loop = Inr out'"
      and "trace ?loop = tr' @ [(Format, final)]"
      by blast
    then have "outcome (invoke cfg llm records) = Inr out'
        \<and> trace (invoke cfg llm records) = ((Analyze, analyzed) # tr') @ [(Format, final)]"
      by (simp add: out tr)
    then show ?thesis by blast
  qed
  have forced: "generate_count (invoke cfg llm records) = maxRetries cfg + 1
           \<and> (\<exists>tr final. trace (invoke cfg llm records) = tr @ [(Format, final)]
                 \<and> retryCount final = maxRetries cfg
                 \<and> routingLabel final = Regenerate)"
    if low: "\<forall>e \<in> set (trace (invoke cfg llm records)).
          fst e = QualityGate \<longrightarrow> confidence_score (snd e) < 0.5"
      and ok: "outcome (invoke cfg llm records) = Inr out" for out
  proof -
    have "retryCount analyzed \<le> maxRetries cfg" by (simp add: rc)
    moreover have "outcome ?loop = Inr out" using ok by (simp add: out)
    moreover have "\<forall>e \<in> set (trace ?loop).
          fst e = QualityGate \<longrightarrow> confidence_score (snd e) < 0.5"
      using low by (simp add: tr)
    ultimately obtain tr' final
      where c: "generate_count ?loop = Suc (maxRetries cfg - retryCount analyzed)"
        and t: "trace ?loop = tr' @ [(Format, final)]"
        and f: "retryCount final = maxRetries cfg" "routingLabel final = Regenerate"
      using loop_low_confidence [of analyzed cfg llm 0 out] by blast
    have "trace (invoke cfg llm records) = ((Analyze, analyzed) # tr') @ [(Format, final)]"
      by (simp add: tr t)
    moreover have "generate_count (invoke cfg llm records) = maxRetries cfg + 1"
      by (simp add: cnt c rc)
    ultimately show ?thesis using f by blast
  qed
  from bound ends forced show ?thesis by blast
qed

theorem regeneration_bounded_witness:
  "map (\<lambda>e. confidence_score (snd e))
     (filter (\<lambda>e. fst e = QualityGate)
        (trace (invoke (example_config\<lparr>scorer := (\<lambda>ins a. 0.3)\<rparr>)
           (\<lambda>i request. Inr ''Sales are flat'') example_batch)))
     = [0.3, 0.3, 0.3]
   \<and> outcome (invoke (example_config\<lparr>scorer := (\<lambda>ins a. 0.3)\<rparr>)
         (\<lambda>i request. Inr ''Sales are flat'') example_batch)
       = Inr ([\<lparr>insight_text = ''Sales are flat'', insight_type = observation,
                 confidence = 0.3\<rparr>,
               \<lparr>insight_text = ''Sales are flat'', insight_type = observation,
                 confidence = 0.3\<rparr>,
               \<lparr>insight_text = ''Sales are flat'', insight_type = observation,
                 confidence = 0.3\<rparr>], 0.3)
   \<and> generate_count (invoke (example_config\<lparr>scorer := (\<lambda>ins a. 0.3)\<rparr>)
         (\<lambda>i request. Inr ''Sales are flat'') example_batch) = 3"
proof -
  let ?cfg = "example_config\<lparr>scorer := (\<lambda>ins a. 0.3)\<rparr>"
  let ?llm = "\<lambda>(i::nat) (request::string). Inr ''Sales are flat'' :: llm_failure + string"
  have low: "\<forall>e \<in> set (trace (invoke ?cfg ?llm example_batch)).
      fst e = QualityGate \<longrightarrow> confidence_score (snd e) < 0.5"
    by (simp add: example_config_def example_batch_def invoke_def analyze_step_def
        initial_state_def regenerate_loop.simps generate_step_def quality_gate_def
        router_def should_continue_def apply_update_def no_update_def dict_get_def
        format_step_def Let_def)
  have gates: "map (\<lambda>e. confidence_score (snd e))
     (filter (\<lambda>e. fst e = QualityGate) (trace (invoke ?cfg ?llm example_batch)))
     = [0.3, 0.3, 0.3]"
    by (simp add: example_config_def example_batch_def invoke_def analyze_step_def
        initial_state_def regenerate_loop.simps generate_step_def quality_gate_def
        router_def should_continue_def apply_update_def no_update_def dict_get_def
        format_step_def Let_def)
  have ok: "outcome (invoke ?cfg ?llm example_batch)
       = Inr ([\<lparr>insight_text = ''Sales are flat'', insight_type = observation,
                 confidence = 0.3\<rparr>,
               \<lparr>insight_text = ''Sales are flat'', insight_type = observation,
                 confidence = 0.3\<rparr>,
               \<lparr>insight_text = ''Sales are flat'', insight_type = observation,
                 confidence = 0.3\<rparr>], 0.3)"
    by (simp add: example_config_def example_batch_def invoke_def analyze_step_def
        initial_state_def regenerate_loop.simps generate_step_def quality_gate_def
        router_def should_continue_def apply_update_def no_update_def dict_get_def
        format_step_def Let_def)
  have "maxRetries ?cfg + 1 = 3"
    by (simp add: example_config_def)
  with regeneration_bounded [of ?cfg ?llm example_batch] low ok gates
  show ?thesis by simp
qed

section \<open>The confidence stays in the unit interval\<close>

lemma generate_step_confidence:
  "generate_step cfg llm i s = (Inr g, i') \<Longrightarrow> confidence_score g = confidence_score s"
  by (auto simp: generate_step_def apply_update_def no_update_def Let_def
      split: prod.splits sum.splits)

lemma quality_gate_confidence:
  "confidence_score (quality_gate cfg s) = scorer cfg (insights s) (current_analysis s)"
  by (simp add: quality_gate_def apply_update_def no_update_def Let_def)

lemma router_confidence:
  "router cfg s = (n, r) \<Longrightarrow> confidence_score r = confidence_score s"
  by (auto simp: router_def split: label.splits if_splits)

lemma loop_confidence:
  assumes range: "\<forall>ins a. 0 \<le> scorer cfg ins a \<and> scorer cfg ins a \<le> 1"
  shows "unit_confidence s \<Longrightarrow>
     (\<forall>e \<in> set (trace (regenerate_loop cfg llm i s)). unit_confidence (snd e))
     \<and> (\<forall>recs c. outcome (regenerate_loop cfg llm i s) = Inr (recs, c) \<longrightarrow> 0 \<le> c \<and> c \<le> 1)"
proof (induction "maxRetries cfg - retryCount s" arbitrary: i s rule: less_induct)
  case less
  show ?case
  proof (cases rule: generate_step_cases [of cfg llm i s])
    case (failed i')
    with less.prems show ?thesis
      by (simp add: regenerate_loop_failed)
  next
    case (generated g i')
    have g: "unit_confidence g"
      using less.prems generate_step_confidence [OF generated]
      by (simp add: unit_confidence_def)
    have q: "unit_confidence (quality_gate cfg g)"
      using range by (simp add: unit_confidence_def quality_gate_confidence)
    show ?thesis
    proof (cases rule: router_cases [of cfg "quality_gate cfg g"])
      case (again r)
      have rc: "retryCount (quality_gate cfg g) = retryCount s"
        using generated by (simp add: quality_gate_retryCount generate_step_retryCount)
      from router_ToGenerate [OF again] rc
      have dec: "maxRetries cfg - retryCount r < maxRetries cfg - retryCount s"
        by arith
      have r: "unit_confidence r"
        using q router_confidence [OF again] by (simp add: unit_confidence_def)
      from less.hyps [OF dec r, of i'] g q r show ?thesis
        by (simp add: regenerate_loop_again [OF generated again])
    next
      case format
      with g q show ?thesis
        by (simp add: regenerate_loop_formatted [OF generated format] unit_confidence_def)
    qed
  qed
qed

text \<open>
  C5: for every insight sequence, the empty one included, the score of the source lies
  between 0 and 1; and in every run of the engine that scores with it, the confidence
  of the state lies between 0 and 1 at the start and after every step, as does the
  overall confidence a successful run returns.
\<close>

theorem confidence_in_unit_interval:
  "0 \<le> calculate_confidence action_words ins analysis
   \<and> calculate_confidence action_words ins analysis \<le> 1
   \<and> 0 \<le> calculate_confidence action_words [] analysis
   \<and> calculate_confidence action_words [] analysis \<le> 1
   \<and> (scorer cfg = calculate_confidence action_words \<longrightarrow>
        0 \<le> confidence_score (initial_state records)
        \<and> confidence_score (initial_state records) \<le> 1
        \<and> (\<forall>e \<in> set (trace (invoke cfg llm records)).
              0 \<le> confidence_score (snd e) \<and> confidence_score (snd e) \<le> 1)
        \<and> (\<forall>recs c. outcome (invoke cfg llm records) = Inr (recs, c) \<longrightarrow>
              0 \<le> c \<and> c \<le> 1))"
proof -
  have score: "0 \<le> calculate_confidence action_words xs a
      \<and> calculate_confidence action_words xs a \<le> 1" for xs a
    using calculate_confidence_lower [of action_words xs a]
      calculate_confidence_upper [of action_words xs a]
    by simp
  have run: "(\<forall>e \<in> set (trace (invoke cfg llm records)).
              0 \<le> confidence_score (snd e) \<and> confidence_score (snd e) \<le> 1)
        \<and> (\<forall>recs c. outcome (invoke cfg llm records) = Inr (recs, c) \<longrightarrow>
              0 \<le> c \<and> c \<le> 1)"
    if sc: "scorer cfg = calculate_confidence action_words"
  proof (cases "records = []")
    case True
    then show ?thesis by (simp add: invoke_def)
  next
    case False
    then obtain analyzed where inv: "invoke cfg llm records =
         (regenerate_loop cfg llm 0 analyzed)
           \<lparr>trace := (Analyze, analyzed) # trace (regenerate_loop cfg llm 0 analyzed)\<rparr>"
      and c0: "confidence_score analyzed = 0"
      by (rule invoke_nonempty)
    have range: "\<forall>xs a. 0 \<le> scorer cfg xs a \<and> scorer cfg xs a \<le> 1"
      using score by (simp add: sc)
    have a: "unit_confidence analyzed"
      by (simp add: unit_confidence_def c0)
    from loop_confidence [OF range a, of llm 0] a show ?thesis
      by (simp add: inv unit_confidence_def)
  qed
  have "0 \<le> confidence_score (initial_state records)
        \<and> confidence_score (initial_state records) \<le> 1"
    by (simp add: initial_state_def)
  with score [of ins analysis] score [of "[]" analysis] run show ?thesis
    by blast
qed

theorem confidence_in_unit_interval_witness:
  "scorer example_config
     = calculate_confidence [''increase'', ''reduce'', ''investigate'', ''optimize'']
   \<and> (\<exists>recs c. outcome (invoke example_config
          (\<lambda>i request. Inr ''Reduce ad spend by 10 percent to increase the sales margin'')
          example_batch) = Inr (recs, c) \<and> 0 \<le> c \<and> c \<le> 1)
   \<and> (\<exists>e. e \<in> set (trace (invoke example_config
          (\<lambda>i request. Inr ''Reduce ad spend by 10 percent to increase the sales margin'')
          example_batch))
        \<and> fst e = QualityGate
        \<and> 0 \<le> confidence_score (snd e) \<and> confidence_score (snd e) \<le> 1)"
proof -
  let ?llm = "\<lambda>(i::nat) (request::string).
    Inr ''Reduce ad spend by 10 percent to increase the sales margin'' :: llm_failure + string"
  let ?run = "invoke example_config ?llm example_batch"
  have sc: "scorer example_config
     = calculate_confidence [''increase'', ''reduce'', ''investigate'', ''optimize'']"
    by (simp add: example_config_def)
  have score: "calculate_confidence [''increase'', ''reduce'', ''investigate'', ''optimize'']
      [''Reduce ad spend by 10 percent to increase the sales margin''] a = 1" for a
    by (simp add: calculate_confidence_def average_length_def any_numeric_def
        any_action_word_def is_digit_def Let_def)
  have out: "outcome ?run
      = Inr ([\<lparr>insight_text = ''Reduce ad spend by 10 percent to increase the sales margin'',
               insight_type = observation, confidence = 1\<rparr>], 1)"
    by (simp add: example_config_def example_batch_def invoke_def analyze_step_def
        initial_state_def regenerate_loop.simps generate_step_def quality_gate_def
        router_def should_continue_def apply_update_def no_update_def dict_get_def
        format_step_def Let_def score)
  have steps: "map fst (trace ?run) = [Analyze, Generate, QualityGate, Router, Format]"
    by (simp add: example_config_def example_batch_def invoke_def analyze_step_def
        initial_state_def regenerate_loop.simps generate_step_def quality_gate_def
        router_def should_continue_def apply_update_def no_update_def dict_get_def
        format_step_def Let_def score)
  then have "QualityGate \<in> fst ` set (trace ?run)"
    by (simp flip: set_map)
  then obtain e where e: "e \<in> set (trace ?run)" "fst e = QualityGate"
    by auto
  from confidence_in_unit_interval
    [of "[''increase'', ''reduce'', ''investigate'', ''optimize'']" "[]" Map.empty
      example_config example_batch ?llm] sc out e
  show ?thesis by blast
qed

section \<open>Failures of a run\<close>

text \<open>
  C8: an invocation with an empty batch returns \<open>InputError\<close> at once. No step runs
  (the trace is empty, so neither Analyze nor Generate is invoked and nothing is
  retried), the collaborator is not called, and no output record is produced or handed
  to persistence.
\<close>

theorem empty_batch_is_input_error:
  "invoke cfg llm [] = \<lparr>trace = [], llm_calls = 0, outcome = Inl InputError\<rparr>
   \<and> generate_count (invoke cfg llm []) = 0
   \<and> outcome (invoke cfg llm []) = Inl InputError
   \<and> handed_to_persistence (invoke cfg llm []) = []"
  by (simp add: invoke_def generate_count_def handed_to_persistence_def)

lemma call_collaborator_all_fail:
  assumes "\<forall>i request. \<exists>failure. llm i request = Inl failure"
  shows "\<exists>failure. call_collaborator llm request i budget = (Inl failure, i + budget + 1)"
proof (induction budget arbitrary: i)
  case 0
  from assms obtain failure where "llm i request = Inl failure" by blast
  then show ?case by simp
next
  case (Suc budget)
  from assms obtain failure where "llm i request = Inl failure" by blast
  with Suc.IH [of "Suc i"] show ?case by simp
qed

text \<open>
  C9: when every call of the collaborator fails, the run of a non-empty batch returns
  \<open>LLMError\<close> once the transient budget is spent, after \<open>transientBudget + 1\<close>
  calls within its single Generate step. No output record is produced or handed to
  persistence, and no state of the run holds an insight.
\<close>

theorem collaborator_always_fails:
  assumes "records \<noteq> []" and "\<forall>i request. \<exists>failure. llm i request = Inl failure"
  shows "outcome (invoke cfg llm records) = Inl LLMError
       \<and> llm_calls (invoke cfg llm records) = transientBudget cfg + 1
       \<and> generate_count (invoke cfg llm records) = 1
       \<and> handed_to_persistence (invoke cfg llm records) = []
       \<and> (\<forall>e \<in> set (trace (invoke cfg llm records)). insights (snd e) = [])"
proof -
  from assms(1) obtain analyzed where inv: "invoke cfg llm records =
       (regenerate_loop cfg llm 0 analyzed)
         \<lparr>trace := (Analyze, analyzed) # trace (regenerate_loop cfg llm 0 analyzed)\<rparr>"
    and ins: "insights analyzed = []"
    by (rule invoke_nonempty)
  from call_collaborator_all_fail [OF assms(2)]
  obtain failure where "call_collaborator llm (build_request cfg (current_analysis analyzed))
      0 (transientBudget cfg) = (Inl failure, 0 + transientBudget cfg + 1)"
    by blast
  then have "generate_step cfg llm 0 analyzed = (Inl LLMError, transientBudget cfg + 1)"
    by (simp add: generate_step_def Let_def)
  then have "regenerate_loop cfg llm 0 analyzed
      = \<lparr>trace = [(Generate, analyzed)], llm_calls = transientBudget cfg + 1,
         outcome = Inl LLMError\<rparr>"
    by (rule regenerate_loop_failed)
  then show ?thesis
    by (simp add: inv ins generate_count_def handed_to_persistence_def)
qed

theorem collaborator_always_fails_witness:
  "example_batch \<noteq> []
   \<and> (\<forall>i request. \<exists>failure. (\<lambda>i request. Inl timeout :: llm_failure + string) i request
         = Inl failure)
   \<and> outcome (invoke example_config (\<lambda>i request. Inl timeout) example_batch) = Inl LLMError
   \<and> llm_calls (invoke example_config (\<lambda>i request. Inl timeout) example_batch) = 2
   \<and> handed_to_persistence (invoke example_config (\<lambda>i request. Inl timeout) example_batch)
       = []"
proof -
  have ne: "example_batch \<noteq> []"
    by (simp add: example_batch_def)
  have fails: "\<forall>i request. \<exists>failure.
      (\<lambda>(i::nat) (request::string). Inl timeout :: llm_failure + string) i request
        = Inl failure"
    by simp
  have "transientBudget example_config + 1 = 2"
    by (simp add: example_config_def)
  with collaborator_always_fails [OF ne fails, of example_config] ne fails
  show ?thesis by simp
qed

section \<open>The Analyze step\<close>

lemma fold_min_is_Min:
  "fold min (map f rs) (f r) = Min (f ` set (r # rs))" for f :: "'a \<Rightarrow> real"
  using Min.set_eq_fold [of "f r" "map f rs"] by simp

lemma fold_max_is_Max:
  "fold max (map f rs) (f r) = Max (f ` set (r # rs))" for f :: "'a \<Rightarrow> real"
  using Max.set_eq_fold [of "f r" "map f rs"] by simp

text \<open>
  C7: for every non-empty batch the analysis holds the length of the batch as its count,
  the least and the greatest value of the records as its range, and a duplicate-free
  list of exactly the categories present. The step depends on the batch alone: every
  state that holds the batch gets this analysis, and running the step again on its own
  result changes nothing.
\<close>

theorem analyze_correct:
  assumes "records \<noteq> []"
  shows "\<exists>analysis cats lo hi.
           analyze records = Inr analysis
         \<and> analysis = [''total_metrics'' \<mapsto> PInt (int (length records)),
                        ''categories'' \<mapsto> PStrs cats,
                        ''value_ranges'' \<mapsto> PDict [(''min'', PFloat lo), (''max'', PFloat hi)]]
         \<and> set cats = category ` set records \<and> distinct cats
         \<and> lo = Min (metric_value ` set records)
         \<and> hi = Max (metric_value ` set records)
         \<and> (\<forall>state. metrics_data state = records \<longrightarrow>
               (\<exists>state'. analyze_step state = Inr state'
                   \<and> current_analysis state' = analysis
                   \<and> analyze_step state' = Inr state'))"
proof -
  from assms obtain r rs where rec: "records = r # rs"
    by (cases records) auto
  let ?cats = "remdups (map category records)"
  let ?lo = "fold min (map metric_value rs) (metric_value r)"
  let ?hi = "fold max (map metric_value rs) (metric_value r)"
  let ?analysis = "[''total_metrics'' \<mapsto> PInt (int (length records)),
                    ''categories'' \<mapsto> PStrs ?cats,
                    ''value_ranges'' \<mapsto> PDict [(''min'', PFloat ?lo), (''max'', PFloat ?hi)]]"
  have a: "analyze records = Inr ?analysis"
    by (simp add: rec)
  have cats: "set ?cats = category ` set records" "distinct ?cats"
    by simp_all
  have lo: "?lo = Min (metric_value ` set records)"
    unfolding rec by (rule fold_min_is_Min)
  have hi: "?hi = Max (metric_value ` set records)"
    unfolding rec by (rule fold_max_is_Max)
  have twice: "\<exists>state'. analyze_step state = Inr state'
                   \<and> current_analysis state' = ?analysis
                   \<and> analyze_step state' = Inr state'"
    if "metrics_data state = records" for state :: WorkflowState
    using that a by (simp add: analyze_step_def apply_update_def no_update_def)
  from a cats lo hi twice show ?thesis
    by blast
qed

theorem analyze_correct_witness:
  "example_batch \<noteq> []
   \<and> analyze example_batch
      = Inr [''total_metrics'' \<mapsto> PInt 3,
             ''categories'' \<mapsto> PStrs [''sales'', ''marketing''],
             ''value_ranges'' \<mapsto> PDict [(''min'', PFloat 10), (''max'', PFloat 30)]]
   \<and> Min (metric_value ` set example_batch) = 10
   \<and> Max (metric_value ` set example_batch) = 30
   \<and> category ` set example_batch = {''sales'', ''marketing''}"
proof -
  have ne: "example_batch \<noteq> []"
    by (simp add: example_batch_def)
  have run: "analyze example_batch
      = Inr [''total_metrics'' \<mapsto> PInt 3,
             ''categories'' \<mapsto> PStrs [''sales'', ''marketing''],
             ''value_ranges'' \<mapsto> PDict [(''min'', PFloat 10), (''max'', PFloat 30)]]"
    by (simp add: example_batch_def)
  from analyze_correct [OF ne] obtain analysis cats lo hi
    where a: "analyze example_batch = Inr analysis"
      and shape: "analysis = [''total_metrics'' \<mapsto> PInt (int (length example_batch)),
                        ''categories'' \<mapsto> PStrs cats,
                        ''value_ranges'' \<mapsto> PDict [(''min'', PFloat lo), (''max'', PFloat hi)]]"
      and cats: "set cats = category ` set example_batch"
      and lo: "lo = Min (metric_value ` set example_batch)"
      and hi: "hi = Max (metric_value ` set example_batch)"
    by blast
  from a run shape have eq: "[''total_metrics'' \<mapsto> PInt (int (length example_batch)),
                        ''categories'' \<mapsto> PStrs cats,
                        ''value_ranges'' \<mapsto> PDict [(''min'', PFloat lo), (''max'', PFloat hi)]]
      = [''total_metrics'' \<mapsto> PInt 3,
             ''categories'' \<mapsto> PStrs [''sales'', ''marketing''],
             ''value_ranges'' \<mapsto> PDict [(''min'', PFloat 10), (''max'', PFloat 30)]]"
    by simp
  from fun_cong [OF eq, of "''value_ranges''"] have "lo = 10" "hi = 30"
    by simp_all
  moreover from fun_cong [OF eq, of "''categories''"] have "cats = [''sales'', ''marketing'']"
    by simp
  ultimately show ?thesis
    using ne run lo hi cats by auto
qed

end
